theory Spec2Isabelle
  imports Complex_Main "HOL-Library.Sublist" "HOL-Library.Multiset"
begin

section \<open>Source statistics registry and ranking engine (SourceRankingService)\<close>

text \<open>
  JavaScript numbers are modelled exactly: the two counters, which the code only ever sets to
  0 and increments, are natural numbers; every other number is a rational. Rounding of IEEE
  doubles is therefore outside the model. \<open>Date.now()\<close> is an argument \<open>now\<close> of the
  operation that reads the clock. Persistence (\<open>saveStatsToStorage\<close>,
  \<open>loadStatsFromStorage\<close>) only acts when a browser \<open>localStorage\<close> exists and is left out.
\<close>

record SourceStats =
  availableCount :: nat
  totalRequests :: nat
  avgResponseTime :: rat
  lastSuccess :: "nat option"
  lastFailure :: "nat option"
  successRate :: rat
  qualityScore :: rat

text \<open>The private field \<open>sourceStats: Map<string, SourceStats>\<close>.\<close>

type_synonym registry = "string \<rightharpoonup> SourceStats"

text \<open>The object literal used by \<open>initSourceStats\<close>, \<open>recordSourceResult\<close> and
  \<open>resetSourceStats\<close>: all counters zero, the given quality score.\<close>

definition zeroStats :: "rat \<Rightarrow> SourceStats" where
  "zeroStats q = \<lparr> availableCount = 0, totalRequests = 0, avgResponseTime = 0,
     lastSuccess = None, lastFailure = None, successRate = 0, qualityScore = q \<rparr>"

definition DEFAULT_QUALITY_SCORES :: "(string \<times> rat) list" where
  "DEFAULT_QUALITY_SCORES =
     [(''qq'', 85), (''kugou'', 80), (''kuwo'', 75), (''migu'', 90), (''joox'', 70),
      (''youtube'', 88), (''ytdlp'', 95), (''bilibili'', 65), (''pyncmd'', 60)]"

text \<open>\<open>initSourceStats\<close>: one zeroed entry per key of the table, written into the map.\<close>

fun initFrom :: "(string \<times> rat) list \<Rightarrow> registry \<Rightarrow> registry" where
  "initFrom [] reg = reg"
| "initFrom ((source, q) # rest) reg = initFrom rest (reg(source \<mapsto> zeroStats q))"

definition initSourceStats :: "registry \<Rightarrow> registry" where
  "initSourceStats reg = initFrom DEFAULT_QUALITY_SCORES reg"

text \<open>The default value of \<open>config.DEFAULT_SOURCES\<close> (src/config.ts); the environment can
  replace it, so the ranking functions take the list as their first argument.\<close>

definition DEFAULT_SOURCES :: "string list" where
  "DEFAULT_SOURCES = [''kugou'', ''kuwo'', ''migu'', ''ytdlp'', ''bilibili'']"

text \<open>\<open>recordSourceResult(source, success, responseTime)\<close>.\<close>

definition recordSourceResult ::
  "registry \<Rightarrow> string \<Rightarrow> bool \<Rightarrow> rat \<Rightarrow> nat \<Rightarrow> registry" where
  "recordSourceResult reg source success responseTime now =
     (let stats0 = (case reg source of None \<Rightarrow> zeroStats 70 | Some s \<Rightarrow> s);
          stats1 = stats0\<lparr> totalRequests := totalRequests stats0 + 1 \<rparr>;
          stats2 =
            (if success then
               (let s = stats1\<lparr> availableCount := availableCount stats1 + 1,
                               lastSuccess := Some now \<rparr>
                in s\<lparr> avgResponseTime :=
                       (avgResponseTime s * of_nat (availableCount s - 1) + responseTime)
                         / of_nat (availableCount s) \<rparr>)
             else stats1\<lparr> lastFailure := Some now \<rparr>);
          stats3 = stats2\<lparr> successRate :=
                     of_nat (availableCount stats2) / of_nat (totalRequests stats2) \<rparr>
      in reg(source \<mapsto> stats3))"

text \<open>A call of \<open>recordSourceResult\<close>: source, success flag, response time, clock reading.\<close>

type_synonym recordCall = "string \<times> bool \<times> rat \<times> nat"

fun recordAll :: "registry \<Rightarrow> recordCall list \<Rightarrow> registry" where
  "recordAll reg [] = reg"
| "recordAll reg ((source, success, responseTime, now) # calls) =
     recordAll (recordSourceResult reg source success responseTime now) calls"

text \<open>What \<open>recordSourceResult\<close> works on for a source: the stored entry, or the zeroed one
  with quality 70 that it creates for a source it has never seen.\<close>

definition entryOf :: "registry \<Rightarrow> string \<Rightarrow> SourceStats" where
  "entryOf reg source = (case reg source of None \<Rightarrow> zeroStats 70 | Some s \<Rightarrow> s)"

text \<open>
  \<open>Array.prototype.sort(comparefn)\<close>. ECMAScript fixes that the sort is stable and that an
  element \<open>x\<close> goes before \<open>y\<close> when \<open>comparefn(x, y) < 0\<close>; the sequence of comparisons is
  left to the engine, and for a comparator that is not a consistent ordering so is the result.
  The model is the stable insertion sort.
\<close>

fun insertBy :: "('a \<Rightarrow> 'a \<Rightarrow> rat) \<Rightarrow> 'a \<Rightarrow> 'a list \<Rightarrow> 'a list" where
  "insertBy cmp x [] = [x]"
| "insertBy cmp x (y # ys) = (if cmp x y \<le> 0 then x # y # ys else y # insertBy cmp x ys)"

fun sortBy :: "('a \<Rightarrow> 'a \<Rightarrow> rat) \<Rightarrow> 'a list \<Rightarrow> 'a list" where
  "sortBy cmp [] = []"
| "sortBy cmp (x # xs) = insertBy cmp x (sortBy cmp xs)"

text \<open>\<open>Array.prototype.indexOf\<close>: the first index, or -1.\<close>

fun indexOf :: "'a list \<Rightarrow> 'a \<Rightarrow> int" where
  "indexOf [] a = -1"
| "indexOf (x # xs) a =
     (if x = a then 0 else (let i = indexOf xs a in if i = -1 then -1 else i + 1))"

text \<open>The predicate given to \<open>filter\<close> in \<open>rankSources\<close>.\<close>

definition keepSource :: "registry \<Rightarrow> string \<Rightarrow> bool" where
  "keepSource reg source =
     (case reg source of
        Some stats \<Rightarrow> (if totalRequests stats > 5 \<and> successRate stats < 0.2 then False else True)
      | None \<Rightarrow> True)"

text \<open>The composite score computed in the comparator.\<close>

definition score :: "SourceStats \<Rightarrow> rat" where
  "score stats = successRate stats * 0.4 + qualityScore stats / 100 * 0.4
     + max 0 ((1000 - avgResponseTime stats) / 1000) * 0.2"

text \<open>The comparator given to \<open>sort\<close> in \<open>rankSources\<close>.\<close>

definition compareSources :: "string list \<Rightarrow> registry \<Rightarrow> string \<Rightarrow> string \<Rightarrow> rat" where
  "compareSources defaults reg a b =
     (let statsA = reg a; statsB = reg b
      in if statsA = None \<or> statsB = None then
           (let defaultOrderA = indexOf defaults a; defaultOrderB = indexOf defaults b
            in if defaultOrderA \<noteq> -1 \<and> defaultOrderB \<noteq> -1
                 then of_int (defaultOrderA - defaultOrderB)
               else if defaultOrderA \<noteq> -1 then -1
               else if defaultOrderB \<noteq> -1 then 1
               else 0)
         else score (the statsB) - score (the statsA))"

definition rankSources :: "string list \<Rightarrow> registry \<Rightarrow> string list \<Rightarrow> string list" where
  "rankSources defaults reg sources =
     (let sources' = (if sources = [] then defaults else sources)
      in sortBy (compareSources defaults reg) (filter (keepSource reg) sources'))"

text \<open>\<open>getBestSource\<close>: \<open>None\<close> is JavaScript's \<open>null\<close>.\<close>

definition getBestSource :: "string list \<Rightarrow> registry \<Rightarrow> string list \<Rightarrow> string option" where
  "getBestSource defaults reg sources =
     (let ranked = rankSources defaults reg sources
      in if length ranked > 0 then Some (hd ranked) else None)"

text \<open>The score of the \<open>4g\<close> branch of \<open>adjustSourcesForNetwork\<close>.\<close>

definition score4g :: "registry \<Rightarrow> string \<Rightarrow> rat" where
  "score4g reg source =
     (case reg source of
        Some stats \<Rightarrow>
          (if qualityScore stats > 90 \<and> avgResponseTime stats > 500
           then qualityScore stats * 0.8 else qualityScore stats)
      | None \<Rightarrow> 70)"

text \<open>The predicate given to \<open>filter\<close> in the \<open>3g\<close>/\<open>2g\<close> branch.\<close>

definition keepOnSlowNetwork :: "registry \<Rightarrow> string \<Rightarrow> bool" where
  "keepOnSlowNetwork reg source =
     (\<not> (case reg source of
           Some stats \<Rightarrow> qualityScore stats > 85 \<and> avgResponseTime stats > 300
         | None \<Rightarrow> False))"

text \<open>\<open>adjustSourcesForNetwork\<close>. The network type is a string at run time (the route passes
  the query parameter through), so every other string takes the \<open>default\<close> branch.\<close>

definition adjustSourcesForNetwork ::
  "string list \<Rightarrow> registry \<Rightarrow> string list \<Rightarrow> string \<Rightarrow> string list" where
  "adjustSourcesForNetwork defaults reg sources networkType =
     (let ranked = rankSources defaults reg sources
      in if networkType = ''wifi'' then ranked
         else if networkType = ''4g'' then
           map fst (sortBy (\<lambda>a b. snd b - snd a) (map (\<lambda>source. (source, score4g reg source)) ranked))
         else if networkType = ''3g'' \<or> networkType = ''2g'' then
           filter (keepOnSlowNetwork reg) ranked
         else ranked)"

section \<open>Cache store (CacheService)\<close>

text \<open>
  The service's state is passed explicitly. Cached values are of an arbitrary type \<open>'v\<close>
  (the source's \<open>any\<close>, without \<open>undefined\<close>); \<open>None\<close> is the \<open>null\<close> that \<open>get\<close> returns
  for a miss, and a cached value that is itself \<open>null\<close> is a value of \<open>'v\<close>, returned as a hit.
  The two libraries the service calls are not part of the repository and are modelled by
  what the service relies on:
  \<^item> the \<open>lru-cache\<close> instance is a list of entries, most recently used first, bounded by
    \<open>max: 1000\<close>; an entry carries the TTL (milliseconds) it was stored with. The clock is not
    modelled, so the model describes runs in which no entry expires between the calls;
  \<^item> the Redis client is the server's data, a flag telling whether its commands resolve or
    reject, and the server's pattern matcher for \<open>KEYS\<close>, a parameter of the model.
  The timers set up by the constructor and the connection events run between calls and are not
  modelled.
\<close>

datatype CacheLevel = MEMORY | REDIS

datatype CachePriority = LOW | NORMAL | HIGH

record CacheOptions =
  ttl :: rat
  level :: CacheLevel
  priority :: "CachePriority option"

text \<open>\<open>Partial<CacheOptions>\<close>: \<open>None\<close> is a property that is not there. An \<open>options\<close> object
  with a property explicitly set to \<open>undefined\<close> is outside the model.\<close>

record PartialCacheOptions =
  ttl_opt :: "rat option"
  level_opt :: "CacheLevel option"
  priority_opt :: "CachePriority option"

text \<open>The object spread \<open>{ ...defaultOptions, ...options }\<close>.\<close>

definition spreadOptions :: "CacheOptions \<Rightarrow> PartialCacheOptions option \<Rightarrow> CacheOptions" where
  "spreadOptions defaultOptions options =
     (case options of
        None \<Rightarrow> defaultOptions
      | Some given \<Rightarrow>
          \<lparr> ttl = (case ttl_opt given of Some t \<Rightarrow> t | None \<Rightarrow> ttl defaultOptions),
            level = (case level_opt given of Some l \<Rightarrow> l | None \<Rightarrow> level defaultOptions),
            priority = (case priority_opt given of Some p \<Rightarrow> Some p
                        | None \<Rightarrow> priority defaultOptions) \<rparr>)"

text \<open>The table \<open>TTL\<close> of default cache times in seconds.\<close>

fun TTL :: "CachePriority \<Rightarrow> rat" where
  "TTL LOW = 15 * 60"
| "TTL NORMAL = 60 * 60"
| "TTL HIGH = 6 * 60 * 60"

subsection \<open>The local tier\<close>

type_synonym 'v LRUCache = "(string \<times> 'v \<times> rat) list"

definition lruMax :: nat where
  "lruMax = 1000"

text \<open>The cache's own default TTL, \<open>ttl: 300 * 1000\<close>, used by a \<open>set\<close> without options.\<close>

definition lruDefaultTtl :: rat where
  "lruDefaultTtl = 300 * 1000"

definition lruDelete :: "string \<Rightarrow> 'v LRUCache \<Rightarrow> 'v LRUCache" where
  "lruDelete key cache = filter (\<lambda>entry. fst entry \<noteq> key) cache"

text \<open>\<open>get\<close>: the value, or \<open>None\<close> for \<open>undefined\<close>; a hit makes the entry the most recent.\<close>

definition lruGet :: "string \<Rightarrow> 'v LRUCache \<Rightarrow> 'v option \<times> 'v LRUCache" where
  "lruGet key cache =
     (case map_of cache key of
        None \<Rightarrow> (None, cache)
      | Some entry \<Rightarrow> (Some (fst entry), (key, entry) # lruDelete key cache))"

text \<open>\<open>set\<close>: the entry becomes the most recent; beyond \<open>max\<close> the least recent is evicted.\<close>

definition lruSet :: "string \<Rightarrow> 'v \<Rightarrow> rat \<Rightarrow> 'v LRUCache \<Rightarrow> 'v LRUCache" where
  "lruSet key v ttlMs cache = take lruMax ((key, v, ttlMs) # lruDelete key cache)"

definition lruKeys :: "'v LRUCache \<Rightarrow> string list" where
  "lruKeys cache = map fst cache"

subsection \<open>The shared tier\<close>

text \<open>What a string stored in Redis is to \<open>get\<close>: the JSON text of a value (what
  \<open>JSON.stringify\<close> wrote; \<open>JSON.parse\<close> gives the value back), a non-empty string that
  \<open>JSON.parse\<close> rejects, or the empty string.\<close>

datatype 'v RedisString = Json 'v | Malformed | EmptyString

text \<open>A promise of the client: rejected, or resolved with a value.\<close>

datatype 'a Reply = Rejected | Resolved 'a

record 'v RedisClient =
  redisData :: "(string \<times> 'v RedisString \<times> rat) list"
  redisUp :: bool
  redisMatch :: "string \<Rightarrow> string \<Rightarrow> bool"

definition redisGet :: "'v RedisClient \<Rightarrow> string \<Rightarrow> 'v RedisString option Reply" where
  "redisGet client key =
     (if redisUp client then Resolved (map_option fst (map_of (redisData client) key))
      else Rejected)"

text \<open>\<open>SET key value EX seconds\<close>: the server rejects an expiry that is not a positive
  integer.\<close>

definition redisSet ::
  "'v RedisClient \<Rightarrow> string \<Rightarrow> 'v RedisString \<Rightarrow> rat \<Rightarrow> 'v RedisClient Reply" where
  "redisSet client key str ex =
     (if redisUp client \<and> 0 < ex \<and> of_int \<lfloor>ex\<rfloor> = ex
      then Resolved (client\<lparr> redisData :=
             (key, str, ex) # filter (\<lambda>entry. fst entry \<noteq> key) (redisData client) \<rparr>)
      else Rejected)"

definition redisDel :: "'v RedisClient \<Rightarrow> string list \<Rightarrow> 'v RedisClient Reply" where
  "redisDel client keys =
     (if redisUp client
      then Resolved (client\<lparr> redisData :=
             filter (\<lambda>entry. fst entry \<notin> set keys) (redisData client) \<rparr>)
      else Rejected)"

definition redisKeys :: "'v RedisClient \<Rightarrow> string \<Rightarrow> string list Reply" where
  "redisKeys client pattern =
     (if redisUp client
      then Resolved (filter (redisMatch client pattern) (map fst (redisData client)))
      else Rejected)"

subsection \<open>The service\<close>

record CacheCounters =
  hits :: nat
  misses :: nat
  memoryCacheSize :: nat
  redisCacheSize :: nat

record 'v CacheService =
  memoryCache :: "'v LRUCache"
  redisClient :: "'v RedisClient option"
  redisAvailable :: bool
  stats :: CacheCounters

text \<open>The service as the constructor leaves it when no Redis is configured.\<close>

definition newCacheService :: "'v CacheService" where
  "newCacheService = \<lparr> memoryCache = [], redisClient = None, redisAvailable = False,
     stats = \<lparr> hits = 0, misses = 0, memoryCacheSize = 0, redisCacheSize = 0 \<rparr> \<rparr>"

definition countHit :: "'v CacheService \<Rightarrow> 'v CacheService" where
  "countHit this = this\<lparr> stats := (stats this)\<lparr> hits := hits (stats this) + 1 \<rparr> \<rparr>"

definition countMiss :: "'v CacheService \<Rightarrow> 'v CacheService" where
  "countMiss this = this\<lparr> stats := (stats this)\<lparr> misses := misses (stats this) + 1 \<rparr> \<rparr>"

text \<open>\<open>get(key)\<close>. Every \<open>catch\<close> of the source is a \<open>Rejected\<close> branch.\<close>

definition get :: "'v CacheService \<Rightarrow> string \<Rightarrow> 'v option \<times> 'v CacheService" where
  "get this key =
     (case lruGet key (memoryCache this) of
        (Some memoryResult, cache) \<Rightarrow> (Some memoryResult, countHit (this\<lparr> memoryCache := cache \<rparr>))
      | (None, cache) \<Rightarrow>
          (if redisAvailable this \<and> redisClient this \<noteq> None then
             (let client = the (redisClient this)
              in case redisGet client key of
                   Rejected \<Rightarrow> (None, countMiss this)
                 | Resolved None \<Rightarrow> (None, countMiss this)
                 | Resolved (Some EmptyString) \<Rightarrow> (None, countMiss this)
                 | Resolved (Some (Json parsed)) \<Rightarrow>
                     (Some parsed,
                      countHit (this\<lparr> memoryCache :=
                        lruSet key parsed lruDefaultTtl (memoryCache this) \<rparr>))
                 | Resolved (Some Malformed) \<Rightarrow>
                     (case redisDel client [key] of
                        Rejected \<Rightarrow> (None, countMiss this)
                      | Resolved client' \<Rightarrow>
                          (None, countMiss (this\<lparr> redisClient := Some client' \<rparr>))))
           else (None, countMiss this)))"

text \<open>What the shared tier gives \<open>get\<close> for a key: the parsed value when the tier is
  available, the command resolves and the stored string is the JSON text of a value.\<close>

definition sharedValue :: "'v CacheService \<Rightarrow> string \<Rightarrow> 'v option" where
  "sharedValue this key =
     (if redisAvailable this then
        (case redisClient this of
           None \<Rightarrow> None
         | Some client \<Rightarrow>
             (if redisUp client then
                (case map_of (redisData client) key of
                   Some (Json v, ex) \<Rightarrow> Some v
                 | _ \<Rightarrow> None)
              else None))
      else None)"

text \<open>The test \<open>!options?.ttl\<close>: true without options, without the property, and for 0.\<close>

definition ttlFalsy :: "PartialCacheOptions option \<Rightarrow> bool" where
  "ttlFalsy options =
     (case options of
        None \<Rightarrow> True
      | Some given \<Rightarrow> (case ttl_opt given of None \<Rightarrow> True | Some t \<Rightarrow> t = 0))"

text \<open>\<open>set(key, value, options)\<close>.\<close>

definition set_cache ::
  "'v CacheService \<Rightarrow> string \<Rightarrow> 'v \<Rightarrow> PartialCacheOptions option \<Rightarrow> 'v CacheService" where
  "set_cache this key v options =
     (let defaultOptions = \<lparr> ttl = 300, level = MEMORY, priority = Some NORMAL \<rparr>;
          opts0 = spreadOptions defaultOptions options;
          opts = (if ttlFalsy options \<and> priority opts0 \<noteq> None
                  then opts0\<lparr> ttl := TTL (the (priority opts0)) \<rparr> else opts0);
          this1 = this\<lparr> memoryCache := lruSet key v (ttl opts * 1000) (memoryCache this) \<rparr>
      in if level opts = REDIS \<and> redisAvailable this1 \<and> redisClient this1 \<noteq> None then
           (case redisSet (the (redisClient this1)) key (Json v) (ttl opts) of
              Rejected \<Rightarrow> this1
            | Resolved client' \<Rightarrow> this1\<lparr> redisClient := Some client' \<rparr>)
         else this1)"

definition has :: "'v CacheService \<Rightarrow> string \<Rightarrow> bool \<times> 'v CacheService" where
  "has this key = (case get this key of (result, this') \<Rightarrow> (result \<noteq> None, this'))"

text \<open>\<open>delete(key)\<close>.\<close>

definition delete_cache :: "'v CacheService \<Rightarrow> string \<Rightarrow> 'v CacheService" where
  "delete_cache this key =
     (let this1 = this\<lparr> memoryCache := lruDelete key (memoryCache this) \<rparr>
      in if redisAvailable this1 \<and> redisClient this1 \<noteq> None then
           (case redisDel (the (redisClient this1)) [key] of
              Rejected \<Rightarrow> this1
            | Resolved client' \<Rightarrow> this1\<lparr> redisClient := Some client' \<rparr>)
         else this1)"

text \<open>\<open>String.prototype.startsWith\<close>.\<close>

definition startsWith :: "string \<Rightarrow> string \<Rightarrow> bool" where
  "startsWith key pre = prefix pre key"

text \<open>The loop of \<open>deleteByPrefix\<close> over \<open>memoryCache.keys()\<close>, the keys the cache holds
  when the loop starts.\<close>

fun deleteMatching :: "string \<Rightarrow> string list \<Rightarrow> 'v LRUCache \<Rightarrow> 'v LRUCache" where
  "deleteMatching pre [] cache = cache"
| "deleteMatching pre (key # keys) cache =
     deleteMatching pre keys (if startsWith key pre then lruDelete key cache else cache)"

text \<open>\<open>deleteByPrefix(prefix)\<close>.\<close>

definition deleteByPrefix :: "'v CacheService \<Rightarrow> string \<Rightarrow> 'v CacheService" where
  "deleteByPrefix this pre =
     (let this1 = this\<lparr> memoryCache :=
            deleteMatching pre (lruKeys (memoryCache this)) (memoryCache this) \<rparr>
      in if redisAvailable this1 \<and> redisClient this1 \<noteq> None then
           (let client = the (redisClient this1)
            in case redisKeys client (pre @ ''*'') of
                 Rejected \<Rightarrow> this1
               | Resolved keys \<Rightarrow>
                   (if length keys > 0 then
                      (case redisDel client keys of
                         Rejected \<Rightarrow> this1
                       | Resolved client' \<Rightarrow> this1\<lparr> redisClient := Some client' \<rparr>)
                    else this1))
         else this1)"

text \<open>\<open>Number.prototype.toFixed(2)\<close> for a number that is not negative: the integer \<open>n\<close>
  nearest to \<open>100 * x\<close> (the larger one on a tie), written with two digits after the point.\<close>

definition digitChar :: "nat \<Rightarrow> char" where
  "digitChar d = ''0123456789'' ! d"

fun decimal :: "nat \<Rightarrow> string" where
  "decimal n = (if n < 10 then [digitChar n] else decimal (n div 10) @ [digitChar (n mod 10)])"

declare decimal.simps [simp del]

definition toFixed2 :: "rat \<Rightarrow> string" where
  "toFixed2 x =
     (let n = nat \<lfloor>x * 100 + 1 / 2\<rfloor>
      in decimal (n div 100) @ ''.'' @ [digitChar (n div 10 mod 10), digitChar (n mod 10)])"

text \<open>The result of \<open>getStats\<close> (interface \<open>CacheStats\<close>; the fields carry the prefix \<open>cs_\<close>).
  \<open>process.memoryUsage().heapUsed\<close> is an argument.\<close>

record CacheStats =
  cs_hits :: nat
  cs_misses :: nat
  cs_size :: nat
  cs_memoryItems :: nat
  cs_memorySizeBytes :: nat
  cs_hitRate :: string

definition getStats :: "'v CacheService \<Rightarrow> nat \<Rightarrow> CacheStats" where
  "getStats this heapUsed =
     (let total = hits (stats this) + misses (stats this);
          hitRate = (if total > 0
                     then toFixed2 (of_nat (hits (stats this)) / of_nat total * 100) @ ''%''
                     else ''0%'')
      in \<lparr> cs_hits = hits (stats this), cs_misses = misses (stats this),
           cs_size = length (memoryCache this), cs_memoryItems = length (memoryCache this),
           cs_memorySizeBytes = heapUsed, cs_hitRate = hitRate \<rparr>)"

definition resetStats :: "'v CacheService \<Rightarrow> 'v CacheService" where
  "resetStats this =
     this\<lparr> stats := \<lparr> hits = 0, misses = 0, memoryCacheSize = 0, redisCacheSize = 0 \<rparr> \<rparr>"

section \<open>Domain cache facade (SongCacheService)\<close>

text \<open>The facade works on the singleton \<open>cacheService\<close>, here the state passed along.\<close>

record SongCacheOptions =
  duration :: rat
  useRedis :: bool
  songPriority :: "CachePriority option"

record PartialSongCacheOptions =
  duration_opt :: "rat option"
  useRedis_opt :: "bool option"
  songPriority_opt :: "CachePriority option"

definition SONG_PREFIX :: string where
  "SONG_PREFIX = ''song:''"

definition SOURCE_PREFIX :: string where
  "SOURCE_PREFIX = ''source:''"

definition songDefaultOptions :: SongCacheOptions where
  "songDefaultOptions = \<lparr> duration = 86400, useRedis = True, songPriority = Some NORMAL \<rparr>"

definition spreadSongOptions :: "PartialSongCacheOptions option \<Rightarrow> SongCacheOptions" where
  "spreadSongOptions options =
     (case options of
        None \<Rightarrow> songDefaultOptions
      | Some given \<Rightarrow>
          \<lparr> duration = (case duration_opt given of Some d \<Rightarrow> d
                        | None \<Rightarrow> duration songDefaultOptions),
            useRedis = (case useRedis_opt given of Some u \<Rightarrow> u
                        | None \<Rightarrow> useRedis songDefaultOptions),
            songPriority = (case songPriority_opt given of Some p \<Rightarrow> Some p
                            | None \<Rightarrow> songPriority songDefaultOptions) \<rparr>)"

text \<open>\<open>getSongKey(id, source?)\<close>: a missing or empty \<open>source\<close> is falsy.\<close>

definition getSongKey :: "string \<Rightarrow> string option \<Rightarrow> string" where
  "getSongKey songId source =
     (case source of
        Some s \<Rightarrow> (if s \<noteq> [] then SONG_PREFIX @ songId @ '':'' @ s else SONG_PREFIX @ songId)
      | None \<Rightarrow> SONG_PREFIX @ songId)"

definition getSourceKey :: "string \<Rightarrow> string" where
  "getSourceKey songId = SOURCE_PREFIX @ songId"

definition cacheSongSourceInfo ::
  "'v CacheService \<Rightarrow> string \<Rightarrow> string \<Rightarrow> 'v \<Rightarrow> PartialSongCacheOptions option
     \<Rightarrow> 'v CacheService" where
  "cacheSongSourceInfo this songId source data options =
     (let opts = spreadSongOptions options
      in set_cache this (getSongKey songId (Some source)) data
           (Some \<lparr> ttl_opt = Some (duration opts),
                   level_opt = Some (if useRedis opts then REDIS else MEMORY),
                   priority_opt = Some (case songPriority opts of Some p \<Rightarrow> p
                                        | None \<Rightarrow> NORMAL) \<rparr>))"

definition getSongSourceInfo ::
  "'v CacheService \<Rightarrow> string \<Rightarrow> string \<Rightarrow> 'v option \<times> 'v CacheService" where
  "getSongSourceInfo this songId source = get this (getSongKey songId (Some source))"

definition clearSongCache :: "'v CacheService \<Rightarrow> string \<Rightarrow> 'v CacheService" where
  "clearSongCache this songId =
     delete_cache (deleteByPrefix this (getSongKey songId None)) (getSourceKey songId)"

text \<open>\<open>clearSourceCache(source)\<close>: the template is \<open>`${SONG_PREFIX}:${source}`\<close>.\<close>

definition clearSourceCache :: "'v CacheService \<Rightarrow> string \<Rightarrow> 'v CacheService" where
  "clearSourceCache this source = deleteByPrefix this (SONG_PREFIX @ '':'' @ source)"

section \<open>Properties of the registry and the ranking engine\<close>

lemma mset_insertBy: "mset (insertBy cmp x xs) = add_mset x (mset xs)"
  by (induction xs) auto

lemma mset_sortBy: "mset (sortBy cmp xs) = mset xs"
  by (induction xs) (auto simp: mset_insertBy)

lemma set_sortBy: "set (sortBy cmp xs) = set xs"
  using mset_sortBy [of cmp xs] by (metis set_mset_mset)

lemma indexOf_absent: "(indexOf xs a = -1) = (a \<notin> set xs)"
proof (induction xs)
  case Nil
  show ?case by simp
next
  case (Cons x xs)
  have nonneg: "indexOf ys a \<noteq> -1 \<Longrightarrow> 0 \<le> indexOf ys a" for ys
    by (induction ys) (auto simp: Let_def split: if_splits)
  show ?case using Cons nonneg [of xs] by (auto simp: Let_def)
qed

lemma set_rankSources:
  "set (rankSources defaults reg sources) =
     {s \<in> set (if sources = [] then defaults else sources). keepSource reg s}"
  by (simp add: rankSources_def set_sortBy)

lemma mset_rankSources:
  "sources \<noteq> [] \<Longrightarrow> mset (rankSources defaults reg sources) = filter_mset (keepSource reg) (mset sources)"
  by (simp add: rankSources_def mset_sortBy)

text \<open>
  C1 (as stated, refuted). With the registry as the constructor leaves it and the default
  configuration, an empty candidate list is not ranked to the empty list: \<open>rankSources\<close>
  replaces it by \<open>config.DEFAULT_SOURCES\<close>, and \<open>getBestSource\<close> returns a source.
\<close>

theorem rankSources_empty_counterexample:
  "rankSources DEFAULT_SOURCES (initSourceStats Map.empty) [] =
     [''ytdlp'', ''migu'', ''kugou'', ''kuwo'', ''bilibili'']
   \<and> getBestSource DEFAULT_SOURCES (initSourceStats Map.empty) [] = Some ''ytdlp''"
  by (simp add: getBestSource_def rankSources_def DEFAULT_SOURCES_def initSourceStats_def
      DEFAULT_QUALITY_SCORES_def keepSource_def zeroStats_def compareSources_def score_def)

text \<open>
  C1 (amended). For an empty candidate list \<open>rankSources\<close> ranks the configured default
  sources: \<open>rankSources([])\<close> equals \<open>rankSources(DEFAULT_SOURCES)\<close>, the filtered and sorted
  default list, and \<open>getBestSource([])\<close> is its head. The result is empty (respectively
  \<open>null\<close>) exactly when the reliability filter leaves no default source. Both functions are
  total: the source has no \<open>throw\<close> on this path, so the model has no error value.
\<close>

theorem rankSources_empty_uses_defaults:
  "rankSources defaults reg [] = rankSources defaults reg defaults
   \<and> rankSources defaults reg [] = sortBy (compareSources defaults reg) (filter (keepSource reg) defaults)
   \<and> getBestSource defaults reg [] =
       (case rankSources defaults reg defaults of [] \<Rightarrow> None | best # _ \<Rightarrow> Some best)
   \<and> ((rankSources defaults reg [] = []) = (filter (keepSource reg) defaults = []))
   \<and> ((getBestSource defaults reg [] = None) = (filter (keepSource reg) defaults = []))"
proof -
  have r: "rankSources defaults reg [] = rankSources defaults reg defaults"
    by (simp add: rankSources_def)
  have e: "(rankSources defaults reg [] = []) = (filter (keepSource reg) defaults = [])"
    using mset_sortBy [of "compareSources defaults reg" "filter (keepSource reg) defaults"]
    by (auto simp: rankSources_def simp del: mset_filter)
  have g: "getBestSource defaults reg [] =
       (case rankSources defaults reg defaults of [] \<Rightarrow> None | best # _ \<Rightarrow> Some best)"
    by (simp add: getBestSource_def r Let_def split: list.splits)
  have n: "(getBestSource defaults reg [] = None) = (rankSources defaults reg [] = [])"
    by (simp add: getBestSource_def Let_def)
  show ?thesis using r e g n by (simp add: rankSources_def)
qed

lemma entryOf_record_same:
  "entryOf (recordSourceResult reg s success rt now) s =
     (let e = entryOf reg s;
          ac = (if success then availableCount e + 1 else availableCount e)
      in e\<lparr> availableCount := ac,
            totalRequests := totalRequests e + 1,
            avgResponseTime :=
              (if success then (avgResponseTime e * of_nat (availableCount e) + rt) / of_nat (availableCount e + 1)
               else avgResponseTime e),
            lastSuccess := (if success then Some now else lastSuccess e),
            lastFailure := (if success then lastFailure e else Some now),
            successRate := of_nat ac / of_nat (totalRequests e + 1) \<rparr>)"
  by (simp add: entryOf_def recordSourceResult_def Let_def)

lemma entryOf_record_other:
  "s' \<noteq> s \<Longrightarrow> entryOf (recordSourceResult reg s' success rt now) s = entryOf reg s"
  by (simp add: entryOf_def recordSourceResult_def Let_def)

text \<open>
  C3. A successful \<open>recordSourceResult\<close> sets the average to
  \<open>(avg * (availableCount - 1) + responseTime) / availableCount\<close>, where \<open>availableCount\<close> is
  the count after the increment; a failed one leaves the average as it was; and from a zeroed
  entry (stored, or created for a source not yet in the map) three successes with response
  times 100, 200, 300 give the average 200.
\<close>

theorem recordSourceResult_running_average:
  "avgResponseTime (entryOf (recordSourceResult reg s True rt now) s) =
     (avgResponseTime (entryOf reg s)
        * of_nat (availableCount (entryOf (recordSourceResult reg s True rt now) s) - 1) + rt)
       / of_nat (availableCount (entryOf (recordSourceResult reg s True rt now) s))
   \<and> availableCount (entryOf (recordSourceResult reg s True rt now) s) =
       availableCount (entryOf reg s) + 1
   \<and> avgResponseTime (entryOf (recordSourceResult reg s False rt now) s) =
       avgResponseTime (entryOf reg s)
   \<and> avgResponseTime (entryOf (recordAll (reg(s \<mapsto> zeroStats q))
         [(s, True, 100, t1), (s, True, 200, t2), (s, True, 300, t3)]) s) = 200
   \<and> avgResponseTime (entryOf (recordAll (reg(s := None))
         [(s, True, 100, t1), (s, True, 200, t2), (s, True, 300, t3)]) s) = 200"
proof -
  have z: "entryOf (reg(s \<mapsto> zeroStats q)) s = zeroStats q"
    "entryOf (reg(s := None)) s = zeroStats 70"
    by (simp_all add: entryOf_def)
  have sel: "availableCount (zeroStats x) = 0" "avgResponseTime (zeroStats x) = 0" for x
    by (simp_all add: zeroStats_def)
  show ?thesis
    by (simp add: entryOf_record_same z Let_def sel)
qed

lemma recordAll_totalRequests:
  "totalRequests (entryOf (recordAll reg calls) s) =
     totalRequests (entryOf reg s) + length (filter (\<lambda>c. fst c = s) calls)"
proof (induction calls arbitrary: reg)
  case Nil
  show ?case by simp
next
  case (Cons c calls)
  obtain s' success rt now where c: "c = (s', success, rt, now)"
    by (cases c) auto
  show ?case
  proof (cases "s' = s")
    case True
    then show ?thesis using Cons [of "recordSourceResult reg s success rt now"] c
      by (simp add: entryOf_record_same Let_def)
  next
    case False
    then show ?thesis using Cons [of "recordSourceResult reg s' success rt now"] c
      by (simp add: entryOf_record_other)
  qed
qed

lemma recordSourceResult_le:
  "availableCount (entryOf reg s) \<le> totalRequests (entryOf reg s) \<Longrightarrow>
   availableCount (entryOf (recordSourceResult reg s' success rt now) s)
     \<le> totalRequests (entryOf (recordSourceResult reg s' success rt now) s)"
  by (cases "s' = s") (simp_all add: entryOf_record_same entryOf_record_other Let_def)

lemma recordAll_le:
  "availableCount (entryOf reg s) \<le> totalRequests (entryOf reg s) \<Longrightarrow>
   availableCount (entryOf (recordAll reg calls) s) \<le> totalRequests (entryOf (recordAll reg calls) s)"
proof (induction calls arbitrary: reg)
  case Nil
  then show ?case by simp
next
  case (Cons c calls)
  obtain s' success rt now where c: "c = (s', success, rt, now)"
    by (cases c) auto
  show ?case
    using Cons.IH [OF recordSourceResult_le [OF Cons.prems, of s' success rt now]] c by simp
qed

text \<open>
  C6. From an entry whose counters are zero (stored so, or not yet in the map), after every
  sequence of \<open>recordSourceResult\<close> calls, whatever their sources: \<open>totalRequests\<close> of a
  source is the number of calls made for it, after the whole sequence and after every prefix
  of it; \<open>availableCount \<le> totalRequests\<close> holds after every prefix; and \<open>totalRequests\<close>
  does not decrease from one prefix to the next.
\<close>

theorem recordAll_monotonic_counters:
  assumes fresh: "totalRequests (entryOf reg s) = 0" "availableCount (entryOf reg s) = 0"
  shows "totalRequests (entryOf (recordAll reg calls) s) = length (filter (\<lambda>c. fst c = s) calls)
    \<and> (\<forall>k. totalRequests (entryOf (recordAll reg (take k calls)) s)
             = length (filter (\<lambda>c. fst c = s) (take k calls))
           \<and> availableCount (entryOf (recordAll reg (take k calls)) s)
               \<le> totalRequests (entryOf (recordAll reg (take k calls)) s)
           \<and> totalRequests (entryOf (recordAll reg (take k calls)) s)
               \<le> totalRequests (entryOf (recordAll reg (take (Suc k) calls)) s))"
proof -
  have le0: "availableCount (entryOf reg s) \<le> totalRequests (entryOf reg s)"
    using fresh by simp
  have mono: "totalRequests (entryOf (recordAll reg (take k calls)) s)
               \<le> totalRequests (entryOf (recordAll reg (take (Suc k) calls)) s)" for k
  proof (cases "k < length calls")
    case True
    then have "take (Suc k) calls = take k calls @ [calls ! k]"
      by (simp add: take_Suc_conv_app_nth)
    then show ?thesis by (simp add: recordAll_totalRequests)
  next
    case False
    then show ?thesis by simp
  qed
  show ?thesis
    using fresh mono recordAll_le [OF le0] by (simp add: recordAll_totalRequests)
qed

theorem recordAll_monotonic_counters_witness:
  "totalRequests (entryOf (recordAll Map.empty
       [(''kugou'', False, 0, 1), (''migu'', True, 120, 2), (''kugou'', True, 80, 3)]) ''kugou'') = 2
   \<and> availableCount (entryOf (recordAll Map.empty
       [(''kugou'', False, 0, 1), (''migu'', True, 120, 2), (''kugou'', True, 80, 3)]) ''kugou'') = 1"
proof -
  have f: "totalRequests (entryOf Map.empty ''kugou'') = 0"
    "availableCount (entryOf Map.empty ''kugou'') = 0"
    by (simp_all add: entryOf_def zeroStats_def)
  have a: "availableCount (entryOf (recordAll Map.empty
       [(''kugou'', False, 0, 1), (''migu'', True, 120, 2), (''kugou'', True, 80, 3)]) ''kugou'') = 1"
    by (simp add: entryOf_record_same entryOf_record_other Let_def f)
  show ?thesis
    using recordAll_monotonic_counters [OF f,
        of "[(''kugou'', False, 0, 1), (''migu'', True, 120, 2), (''kugou'', True, 80, 3)]"] a
    by simp
qed

lemma keepSource_iff:
  "keepSource reg s = (\<not> (\<exists>st. reg s = Some st \<and> totalRequests st > 5 \<and> successRate st < 0.2))"
  by (auto simp: keepSource_def split: option.splits)

text \<open>
  C4. \<open>rankSources\<close> never returns a source whose entry has \<open>totalRequests > 5\<close> and
  \<open>successRate < 0.2\<close>; every other candidate, with or without an entry, is returned as often
  as it occurs among the candidates; in particular a source with \<open>totalRequests = 10\<close> and
  \<open>successRate = 0.1\<close> is not in the result for a non-empty candidate list with a candidate that
  is not filtered, and that result is not empty.
\<close>

theorem rankSources_reliability_filter:
  "(reg s = Some st \<and> totalRequests st > 5 \<and> successRate st < 0.2
      \<longrightarrow> s \<notin> set (rankSources defaults reg sources))
   \<and> (s \<in> set sources \<and> \<not> (\<exists>st'. reg s = Some st' \<and> totalRequests st' > 5 \<and> successRate st' < 0.2)
      \<longrightarrow> s \<in> set (rankSources defaults reg sources)
          \<and> count (mset (rankSources defaults reg sources)) s = count (mset sources) s)
   \<and> (reg s = Some st \<and> totalRequests st = 10 \<and> successRate st = 0.1 \<and> sources \<noteq> []
        \<and> (\<exists>c \<in> set sources. \<not> (\<exists>st'. reg c = Some st' \<and> totalRequests st' > 5 \<and> successRate st' < 0.2))
      \<longrightarrow> s \<notin> set (rankSources defaults reg sources) \<and> rankSources defaults reg sources \<noteq> [])"
proof -
  have excl: "reg s = Some st \<Longrightarrow> totalRequests st > 5 \<Longrightarrow> successRate st < 0.2
      \<Longrightarrow> s \<notin> set (rankSources defaults reg sources)"
    by (auto simp: set_rankSources keepSource_iff)
  have keep: "s \<in> set sources \<Longrightarrow> keepSource reg s
      \<Longrightarrow> s \<in> set (rankSources defaults reg sources)
          \<and> count (mset (rankSources defaults reg sources)) s = count (mset sources) s"
    using mset_rankSources [of sources defaults reg]
    by (cases "sources = []") (auto simp: set_rankSources simp del: mset_filter)
  have nonempty: "c \<in> set sources \<Longrightarrow> keepSource reg c \<Longrightarrow> rankSources defaults reg sources \<noteq> []" for c
    using set_rankSources [of defaults reg sources] by (cases "sources = []") auto
  have part: "reg s = Some st \<Longrightarrow> totalRequests st = 10 \<Longrightarrow> successRate st = 0.1
      \<Longrightarrow> s \<notin> set (rankSources defaults reg sources)"
    using excl by simp
  show ?thesis
    using excl keep nonempty part unfolding keepSource_iff by blast
qed

theorem rankSources_reliability_filter_witness:
  "''kugou'' \<notin> set (rankSources DEFAULT_SOURCES
       [''kugou'' \<mapsto> (zeroStats 80)\<lparr> totalRequests := 10, availableCount := 1, successRate := 0.1 \<rparr>]
       [''kugou'', ''migu''])
   \<and> ''migu'' \<in> set (rankSources DEFAULT_SOURCES
       [''kugou'' \<mapsto> (zeroStats 80)\<lparr> totalRequests := 10, availableCount := 1, successRate := 0.1 \<rparr>]
       [''kugou'', ''migu''])"
  using rankSources_reliability_filter [of
      "[''kugou'' \<mapsto> (zeroStats 80)\<lparr> totalRequests := 10, availableCount := 1, successRate := 0.1 \<rparr>]"
      "''kugou''" "(zeroStats 80)\<lparr> totalRequests := 10, availableCount := 1, successRate := 0.1 \<rparr>"
      DEFAULT_SOURCES "[''kugou'', ''migu'']"]
    rankSources_reliability_filter [of
      "[''kugou'' \<mapsto> (zeroStats 80)\<lparr> totalRequests := 10, availableCount := 1, successRate := 0.1 \<rparr>]"
      "''migu''" "zeroStats 0" 
      DEFAULT_SOURCES "[''kugou'', ''migu'']"]
  by (simp add: zeroStats_def)

lemma keepOnSlowNetwork_iff:
  "keepOnSlowNetwork reg s = (\<not> (\<exists>st. reg s = Some st \<and> qualityScore st > 85 \<and> avgResponseTime st > 300))"
  by (auto simp: keepOnSlowNetwork_def split: option.splits)

lemma rankSources_pair:
  assumes "keepSource reg a" "keepSource reg b"
  shows "rankSources defaults reg [a, b] = [a, b] \<or> rankSources defaults reg [a, b] = [b, a]"
  using assms by (simp add: rankSources_def)

text \<open>
  C5. For the network types \<open>3g\<close> and \<open>2g\<close>, \<open>adjustSourcesForNetwork\<close> returns the ranked
  list without the sources whose entry has \<open>qualityScore > 85\<close> and \<open>avgResponseTime > 300\<close>,
  and with every other ranked source, in ranked order. For A (95, 800) and B (70, 100), both
  passing the reliability filter, \<open>adjustSourcesForNetwork([A, B], "3g")\<close> is \<open>[B]\<close>.
\<close>

theorem adjustSourcesForNetwork_slow_network:
  "(networkType = ''3g'' \<or> networkType = ''2g'' \<longrightarrow>
      adjustSourcesForNetwork defaults reg sources networkType =
        filter (\<lambda>s. \<not> (\<exists>st. reg s = Some st \<and> qualityScore st > 85 \<and> avgResponseTime st > 300))
          (rankSources defaults reg sources))
   \<and> (reg a = Some sa \<and> qualityScore sa = 95 \<and> avgResponseTime sa = 800
        \<and> \<not> (totalRequests sa > 5 \<and> successRate sa < 0.2)
        \<and> reg b = Some sb \<and> qualityScore sb = 70 \<and> avgResponseTime sb = 100
        \<and> \<not> (totalRequests sb > 5 \<and> successRate sb < 0.2)
      \<longrightarrow> adjustSourcesForNetwork defaults reg [a, b] ''3g'' = [b])"
proof -
  have gen: "networkType = ''3g'' \<or> networkType = ''2g'' \<Longrightarrow>
      adjustSourcesForNetwork defaults reg sources networkType =
        filter (\<lambda>s. \<not> (\<exists>st. reg s = Some st \<and> qualityScore st > 85 \<and> avgResponseTime st > 300))
          (rankSources defaults reg sources)" for sources networkType
  proof -
    assume n: "networkType = ''3g'' \<or> networkType = ''2g''"
    have f: "keepOnSlowNetwork reg =
        (\<lambda>s. \<not> (\<exists>st. reg s = Some st \<and> qualityScore st > 85 \<and> avgResponseTime st > 300))"
      by (rule ext) (rule keepOnSlowNetwork_iff)
    have "adjustSourcesForNetwork defaults reg sources networkType =
        filter (keepOnSlowNetwork reg) (rankSources defaults reg sources)"
      using n by (auto simp: adjustSourcesForNetwork_def Let_def)
    then show ?thesis by (simp only: f)
  qed
  have ex: "adjustSourcesForNetwork defaults reg [a, b] ''3g'' = [b]"
    if a: "reg a = Some sa" "qualityScore sa = 95" "avgResponseTime sa = 800"
         "\<not> (totalRequests sa > 5 \<and> successRate sa < 0.2)"
      and b: "reg b = Some sb" "qualityScore sb = 70" "avgResponseTime sb = 100"
         "\<not> (totalRequests sb > 5 \<and> successRate sb < 0.2)"
  proof -
    have k: "keepSource reg a" "keepSource reg b"
      using a b by (auto simp: keepSource_iff)
    have d: "\<not> keepOnSlowNetwork reg a" "keepOnSlowNetwork reg b"
      using a b by (auto simp: keepOnSlowNetwork_iff)
    have "adjustSourcesForNetwork defaults reg [a, b] ''3g'' =
            filter (keepOnSlowNetwork reg) (rankSources defaults reg [a, b])"
      by (simp add: adjustSourcesForNetwork_def Let_def)
    then show ?thesis using rankSources_pair [OF k, of defaults] d by auto
  qed
  show ?thesis using gen [of networkType sources] ex by blast
qed

theorem adjustSourcesForNetwork_slow_network_witness:
  "adjustSourcesForNetwork DEFAULT_SOURCES
     [''ytdlp'' \<mapsto> (zeroStats 95)\<lparr> avgResponseTime := 800 \<rparr>,
      ''joox'' \<mapsto> (zeroStats 70)\<lparr> avgResponseTime := 100 \<rparr>]
     [''ytdlp'', ''joox''] ''3g'' = [''joox'']
   \<and> adjustSourcesForNetwork DEFAULT_SOURCES
     [''ytdlp'' \<mapsto> (zeroStats 95)\<lparr> avgResponseTime := 800 \<rparr>,
      ''joox'' \<mapsto> (zeroStats 70)\<lparr> avgResponseTime := 100 \<rparr>]
     [''ytdlp'', ''joox''] ''3g'' =
     filter (\<lambda>s. s \<noteq> ''ytdlp'') (rankSources DEFAULT_SOURCES
     [''ytdlp'' \<mapsto> (zeroStats 95)\<lparr> avgResponseTime := 800 \<rparr>,
      ''joox'' \<mapsto> (zeroStats 70)\<lparr> avgResponseTime := 100 \<rparr>]
     [''ytdlp'', ''joox''])"
  using adjustSourcesForNetwork_slow_network [of "''3g''" DEFAULT_SOURCES
     "[''ytdlp'' \<mapsto> (zeroStats 95)\<lparr> avgResponseTime := 800 \<rparr>,
      ''joox'' \<mapsto> (zeroStats 70)\<lparr> avgResponseTime := 100 \<rparr>]"
     "[''ytdlp'', ''joox'']" "''ytdlp''" "(zeroStats 95)\<lparr> avgResponseTime := 800 \<rparr>"
     "''joox''" "(zeroStats 70)\<lparr> avgResponseTime := 100 \<rparr>"]
  by (simp add: zeroStats_def rankSources_def keepSource_def compareSources_def score_def)

text \<open>
  C10. When one of the two compared sources has no entry, the comparator's value is computed
  from the two positions in the default list alone: the difference of the positions when both
  are in the list, otherwise the one that is in the list goes first; no score enters. So for
  \<open>a\<close> with an entry that passes the reliability filter and \<open>b\<close> without an entry, where
  \<open>b\<close> is in the default list and \<open>a\<close> is after it or not in it, the comparator orders \<open>b\<close>
  before \<open>a\<close> in whichever order it is called, and \<open>rankSources([a, b])\<close> is \<open>[b, a]\<close>.
\<close>

theorem compareSources_missing_stats_default_order:
  "(reg a = None \<or> reg b = None \<longrightarrow>
      compareSources defaults reg a b =
        (if indexOf defaults a \<noteq> -1 \<and> indexOf defaults b \<noteq> -1
           then of_int (indexOf defaults a - indexOf defaults b)
         else if indexOf defaults a \<noteq> -1 then -1
         else if indexOf defaults b \<noteq> -1 then 1
         else 0))
   \<and> (reg a = None \<or> reg b = None \<longrightarrow> a \<in> set defaults \<longrightarrow> b \<notin> set defaults \<longrightarrow>
        compareSources defaults reg a b < 0 \<and> compareSources defaults reg b a > 0)
   \<and> (reg a = Some sa \<and> \<not> (totalRequests sa > 5 \<and> successRate sa < 0.2) \<and> reg b = None
        \<and> b \<in> set defaults \<and> (a \<in> set defaults \<longrightarrow> indexOf defaults b < indexOf defaults a)
      \<longrightarrow> compareSources defaults reg a b > 0 \<and> compareSources defaults reg b a < 0
          \<and> rankSources defaults reg [a, b] = [b, a])"
proof -
  have cmp: "compareSources defaults reg x y =
        (if indexOf defaults x \<noteq> -1 \<and> indexOf defaults y \<noteq> -1
           then of_int (indexOf defaults x - indexOf defaults y)
         else if indexOf defaults x \<noteq> -1 then -1
         else if indexOf defaults y \<noteq> -1 then 1
         else 0)" if "reg x = None \<or> reg y = None" for x y
    using that by (auto simp: compareSources_def Let_def)
  have pres: "compareSources defaults reg x y < 0 \<and> compareSources defaults reg y x > 0"
    if "reg x = None \<or> reg y = None" "x \<in> set defaults" "y \<notin> set defaults" for x y
    using cmp [of x y] cmp [of y x] that by (auto simp: indexOf_absent)
  have pair: "compareSources defaults reg a b > 0 \<and> compareSources defaults reg b a < 0
          \<and> rankSources defaults reg [a, b] = [b, a]"
    if a: "reg a = Some sa" "\<not> (totalRequests sa > 5 \<and> successRate sa < 0.2)"
      and b: "reg b = None" "b \<in> set defaults"
      and ord: "a \<in> set defaults \<longrightarrow> indexOf defaults b < indexOf defaults a"
  proof -
    have ab: "compareSources defaults reg a b > 0"
      using cmp [of a b] b ord by (auto simp: indexOf_absent)
    have ba: "compareSources defaults reg b a < 0"
      using cmp [of b a] b ord by (auto simp: indexOf_absent)
    have k: "keepSource reg a" "keepSource reg b"
      using a b by (auto simp: keepSource_iff)
    have "rankSources defaults reg [a, b] = [b, a]"
      using ab k by (simp add: rankSources_def)
    then show ?thesis using ab ba by simp
  qed
  show ?thesis using cmp [of a b] pres [of a b] pair by blast
qed

theorem compareSources_missing_stats_default_order_witness:
  "rankSources DEFAULT_SOURCES
     [''migu'' \<mapsto> (zeroStats 90)\<lparr> totalRequests := 4, availableCount := 4, successRate := 1 \<rparr>]
     [''migu'', ''kugou''] = [''kugou'', ''migu'']
   \<and> compareSources DEFAULT_SOURCES
     [''migu'' \<mapsto> (zeroStats 90)\<lparr> totalRequests := 4, availableCount := 4, successRate := 1 \<rparr>]
     ''migu'' ''kugou'' = 2
   \<and> compareSources DEFAULT_SOURCES
     [''migu'' \<mapsto> (zeroStats 90)\<lparr> totalRequests := 4, availableCount := 4, successRate := 1 \<rparr>]
     ''kugou'' ''qq'' < 0"
  using compareSources_missing_stats_default_order [of
     "[''migu'' \<mapsto> (zeroStats 90)\<lparr> totalRequests := 4, availableCount := 4, successRate := 1 \<rparr>]"
     "''migu''" "''kugou''" DEFAULT_SOURCES
     "(zeroStats 90)\<lparr> totalRequests := 4, availableCount := 4, successRate := 1 \<rparr>"]
   compareSources_missing_stats_default_order [of
     "[''migu'' \<mapsto> (zeroStats 90)\<lparr> totalRequests := 4, availableCount := 4, successRate := 1 \<rparr>]"
     "''kugou''" "''qq''" DEFAULT_SOURCES "zeroStats 0"]
  by (simp add: zeroStats_def DEFAULT_SOURCES_def)


section \<open>Properties of the cache store and the facade\<close>

lemma map_of_lruDelete:
  "map_of (lruDelete key cache) k = (if k = key then None else map_of cache k)"
  by (induction cache) (auto simp: lruDelete_def)

lemma map_of_lruSet_same: "map_of (lruSet key v t cache) key = Some (v, t)"
  by (simp add: lruSet_def lruMax_def take_Cons')

lemma memoryCache_set_cache:
  "memoryCache (set_cache this key v options) =
     lruSet key v
       ((if ttlFalsy options
         then TTL (case options of None \<Rightarrow> NORMAL
                   | Some given \<Rightarrow> (case priority_opt given of None \<Rightarrow> NORMAL | Some p \<Rightarrow> p))
         else the (ttl_opt (the options))) * 1000)
       (memoryCache this)"
  by (auto simp: set_cache_def Let_def spreadOptions_def ttlFalsy_def
      split: option.splits Reply.splits)

lemma set_cache_explicit_ttl:
  assumes "t \<noteq> 0"
  shows "map_of (memoryCache (set_cache this key v
           (Some \<lparr> ttl_opt = Some t, level_opt = l, priority_opt = p \<rparr>))) key = Some (v, t * 1000)"
  using assms by (simp add: memoryCache_set_cache map_of_lruSet_same ttlFalsy_def)

lemma set_cache_explicit_ttl_redis:
  assumes "t \<noteq> 0" "redisAvailable this" "redisClient this = Some client"
    and "redisSet client key (Json v) t = Resolved client'"
  shows "redisClient (set_cache this key v
           (Some \<lparr> ttl_opt = Some t, level_opt = Some REDIS, priority_opt = p \<rparr>)) = Some client'
         \<and> map_of (redisData client') key = Some (Json v, t)"
  using assms
  by (auto simp: set_cache_def Let_def spreadOptions_def ttlFalsy_def redisSet_def
      split: option.splits Reply.splits if_splits)

text \<open>
  C7 (the code at the failing input). \<open>set(key, value, { ttl: 0 })\<close> stores the entry with
  the TTL of the priority, 3600 s for the default \<open>NORMAL\<close> and 21600 s for \<open>HIGH\<close>, not
  with the 0 that was supplied: \<open>!options?.ttl\<close> is true for 0. The two lemmas before this
  theorem show that every supplied TTL other than 0 is used as it is, in both tiers.
\<close>

theorem set_cache_zero_ttl_replaced:
  "map_of (memoryCache (set_cache this key v
       (Some \<lparr> ttl_opt = Some 0, level_opt = l, priority_opt = None \<rparr>))) key = Some (v, 3600 * 1000)
   \<and> map_of (memoryCache (set_cache this key v
       (Some \<lparr> ttl_opt = Some 0, level_opt = l, priority_opt = Some HIGH \<rparr>))) key
     = Some (v, 21600 * 1000)
   \<and> memoryCache (set_cache newCacheService key v
       (Some \<lparr> ttl_opt = Some 0, level_opt = None, priority_opt = None \<rparr>)) = [(key, v, 3600000)]"
  by (simp add: memoryCache_set_cache map_of_lruSet_same ttlFalsy_def)
     (simp add: lruSet_def lruMax_def lruDelete_def newCacheService_def)

lemma decimal_digit: "n < 10 \<Longrightarrow> decimal n = [digitChar n]"
  by (subst decimal.simps) simp

lemma toFixed2_50: "toFixed2 50 = ''50.00''"
proof -
  have f: "\<lfloor>10001 / 2 :: rat\<rfloor> = 5000"
    by (rule floor_unique) simp_all
  have d: "decimal 50 = ''50''"
    by (subst decimal.simps) (simp add: decimal_digit digitChar_def)
  show ?thesis
    by (simp add: toFixed2_def Let_def f d digitChar_def)
qed


lemma get_local_hit:
  "map_of (memoryCache this) key = Some entry \<Longrightarrow>
   get this key = (Some (fst entry),
     countHit (this\<lparr> memoryCache := (key, entry) # lruDelete key (memoryCache this) \<rparr>))"
  by (simp add: get_def lruGet_def)

lemma get_local_miss_unavailable:
  "map_of (memoryCache this) key = None \<Longrightarrow> \<not> (redisAvailable this \<and> redisClient this \<noteq> None) \<Longrightarrow>
   get this key = (None, countMiss this)"
  by (auto simp: get_def lruGet_def)

lemma get_local_miss_shared:
  "map_of (memoryCache this) key = None \<Longrightarrow> redisAvailable this \<Longrightarrow>
   redisClient this = Some client \<Longrightarrow>
   get this key =
     (case redisGet client key of
        Rejected \<Rightarrow> (None, countMiss this)
      | Resolved None \<Rightarrow> (None, countMiss this)
      | Resolved (Some EmptyString) \<Rightarrow> (None, countMiss this)
      | Resolved (Some (Json parsed)) \<Rightarrow>
          (Some parsed,
           countHit (this\<lparr> memoryCache := lruSet key parsed lruDefaultTtl (memoryCache this) \<rparr>))
      | Resolved (Some Malformed) \<Rightarrow>
          (case redisDel client [key] of
             Rejected \<Rightarrow> (None, countMiss this)
           | Resolved client' \<Rightarrow> (None, countMiss (this\<lparr> redisClient := Some client' \<rparr>))))"
  by (simp add: get_def lruGet_def Let_def)

lemma get_result:
  "fst (get this key) =
     (case map_of (memoryCache this) key of
        Some entry \<Rightarrow> Some (fst entry)
      | None \<Rightarrow> sharedValue this key)"
proof (cases "map_of (memoryCache this) key")
  case (Some entry)
  then show ?thesis by (simp add: get_local_hit)
next
  case None
  show ?thesis
  proof (cases "redisAvailable this \<and> redisClient this \<noteq> None")
    case False
    then show ?thesis using None
      by (auto simp: get_local_miss_unavailable sharedValue_def split: option.splits)
  next
    case True
    then obtain client where c: "redisClient this = Some client" by auto
    show ?thesis
      using None True c
      by (simp add: get_local_miss_shared [OF None _ c] sharedValue_def redisGet_def redisDel_def
          split: option.splits RedisString.splits prod.splits)
  qed
qed

lemma get_counters:
  "stats (snd (get this key)) =
     (if fst (get this key) = None
      then (stats this)\<lparr> misses := misses (stats this) + 1 \<rparr>
      else (stats this)\<lparr> hits := hits (stats this) + 1 \<rparr>)"
proof (cases "map_of (memoryCache this) key")
  case (Some entry)
  then show ?thesis by (simp add: get_local_hit countHit_def)
next
  case None
  show ?thesis
  proof (cases "redisAvailable this \<and> redisClient this \<noteq> None")
    case False
    then show ?thesis using None
      by (simp add: get_local_miss_unavailable countMiss_def)
  next
    case True
    then obtain client where c: "redisClient this = Some client" by auto
    show ?thesis
      using None True c
      by (simp add: get_local_miss_shared [OF None _ c] redisGet_def redisDel_def
          countHit_def countMiss_def
          split: option.splits RedisString.splits prod.splits)
  qed
qed

lemma stats_set_cache: "stats (set_cache this key v options) = stats this"
  by (simp add: set_cache_def Let_def split: Reply.splits)

lemma map_of_set_cache_same:
  "\<exists>t. map_of (memoryCache (set_cache this key v options)) key = Some (v, t)"
  by (simp add: memoryCache_set_cache map_of_lruSet_same)

lemma get_after_set_cache:
  "fst (get (set_cache this key v options) key) = Some v"
  using map_of_set_cache_same [of this key v options] by (auto simp: get_result)

text \<open>
  C8. A \<open>get\<close> that returns no value adds one to \<open>misses\<close> and leaves \<open>hits\<close>; a \<open>get\<close>
  that returns a value adds one to \<open>hits\<close> and leaves \<open>misses\<close>; it returns no value exactly
  when the key is in neither tier. From \<open>hits = 0\<close>, \<open>misses = 0\<close>, a \<open>get\<close> of a key that is
  absent, a \<open>set\<close> of that key (with any options) and a second \<open>get\<close> return the value and
  leave \<open>hits = 1\<close>, \<open>misses = 1\<close>, and \<open>getStats\<close> reports the hit rate \<open>50.00%\<close>.
\<close>

theorem get_hit_miss_accounting:
  "(fst (get this key) = None \<longrightarrow>
      misses (stats (snd (get this key))) = misses (stats this) + 1
      \<and> hits (stats (snd (get this key))) = hits (stats this))
   \<and> (fst (get this key) \<noteq> None \<longrightarrow>
      hits (stats (snd (get this key))) = hits (stats this) + 1
      \<and> misses (stats (snd (get this key))) = misses (stats this))
   \<and> ((fst (get this key) = None) =
        (map_of (memoryCache this) key = None \<and> sharedValue this key = None))
   \<and> (hits (stats this) = 0 \<and> misses (stats this) = 0 \<and> fst (get this key) = None \<longrightarrow>
        (let this1 = snd (get this key);
             this2 = set_cache this1 key v options;
             this3 = snd (get this2 key)
         in fst (get this2 key) = Some v
            \<and> hits (stats this3) = 1 \<and> misses (stats this3) = 1
            \<and> cs_hits (getStats this3 heapUsed) = 1 \<and> cs_misses (getStats this3 heapUsed) = 1
            \<and> cs_hitRate (getStats this3 heapUsed) = ''50.00%''))"
proof -
  have a: "fst (get this key) = None \<Longrightarrow>
      misses (stats (snd (get this key))) = misses (stats this) + 1
      \<and> hits (stats (snd (get this key))) = hits (stats this)"
    by (simp add: get_counters)
  have b: "fst (get this key) \<noteq> None \<Longrightarrow>
      hits (stats (snd (get this key))) = hits (stats this) + 1
      \<and> misses (stats (snd (get this key))) = misses (stats this)"
    by (simp add: get_counters)
  have c: "(fst (get this key) = None) =
        (map_of (memoryCache this) key = None \<and> sharedValue this key = None)"
    by (simp add: get_result split: option.splits)
  have d: "(let this1 = snd (get this key);
             this2 = set_cache this1 key v options;
             this3 = snd (get this2 key)
         in fst (get this2 key) = Some v
            \<and> hits (stats this3) = 1 \<and> misses (stats this3) = 1
            \<and> cs_hits (getStats this3 heapUsed) = 1 \<and> cs_misses (getStats this3 heapUsed) = 1
            \<and> cs_hitRate (getStats this3 heapUsed) = ''50.00%'')"
    if z: "hits (stats this) = 0" "misses (stats this) = 0" and m: "fst (get this key) = None"
  proof -
    define this1 where "this1 = snd (get this key)"
    define this2 where "this2 = set_cache this1 key v options"
    define this3 where "this3 = snd (get this2 key)"
    have s1: "hits (stats this1) = 0" "misses (stats this1) = 1"
      using z m by (simp_all add: this1_def get_counters)
    have s2: "hits (stats this2) = 0" "misses (stats this2) = 1"
      using s1 by (simp_all add: this2_def stats_set_cache)
    have r: "fst (get this2 key) = Some v"
      by (simp add: this2_def get_after_set_cache)
    have s3: "hits (stats this3) = 1" "misses (stats this3) = 1"
      using s2 r by (simp_all add: this3_def get_counters)
    have rate: "cs_hitRate (getStats this3 heapUsed) = ''50.00%''"
      using s3 by (simp add: getStats_def Let_def toFixed2_50)
    have cnt: "cs_hits (getStats this3 heapUsed) = 1" "cs_misses (getStats this3 heapUsed) = 1"
      using s3 by (simp_all add: getStats_def Let_def)
    show ?thesis
      using r s3 rate cnt unfolding Let_def this1_def this2_def this3_def by simp
  qed
  show ?thesis using a b c d by blast
qed

theorem get_hit_miss_accounting_witness:
  "fst (get (newCacheService :: nat CacheService) ''song:1'') = None
   \<and> cs_hitRate (getStats (snd (get (set_cache (snd (get (newCacheService :: nat CacheService)
         ''song:1'')) ''song:1'' 7 None) ''song:1'')) 0) = ''50.00%''
   \<and> hits (stats (snd (get (set_cache (snd (get (newCacheService :: nat CacheService)
         ''song:1'')) ''song:1'' 7 None) ''song:1''))) = 1
   \<and> misses (stats (snd (get (set_cache (snd (get (newCacheService :: nat CacheService)
         ''song:1'')) ''song:1'' 7 None) ''song:1''))) = 1"
proof -
  have m: "fst (get (newCacheService :: nat CacheService) ''song:1'') = None"
    by (simp add: get_result sharedValue_def newCacheService_def)
  have z: "hits (stats (newCacheService :: nat CacheService)) = 0"
    "misses (stats (newCacheService :: nat CacheService)) = 0"
    by (simp_all add: newCacheService_def)
  show ?thesis
    using get_hit_miss_accounting [of "newCacheService :: nat CacheService" "''song:1''" 7 None 0] m z
    by (simp add: Let_def)
qed

lemma deleteMatching_filter:
  "deleteMatching pre keys cache =
     filter (\<lambda>entry. \<not> (fst entry \<in> set keys \<and> startsWith (fst entry) pre)) cache"
proof (induction keys arbitrary: cache)
  case Nil
  show ?case by simp
next
  case (Cons key keys)
  show ?case
    by (auto simp: Cons lruDelete_def intro: filter_cong)
qed

lemma memoryCache_deleteByPrefix:
  "memoryCache (deleteByPrefix this pre) =
     filter (\<lambda>entry. \<not> startsWith (fst entry) pre) (memoryCache this)"
proof -
  have "memoryCache (deleteByPrefix this pre) =
      deleteMatching pre (lruKeys (memoryCache this)) (memoryCache this)"
    by (simp add: deleteByPrefix_def Let_def split: Reply.splits)
  also have "\<dots> = filter (\<lambda>entry. \<not> startsWith (fst entry) pre) (memoryCache this)"
    unfolding deleteMatching_filter lruKeys_def by (rule filter_cong) auto
  finally show ?thesis .
qed

lemma map_of_filter_keys:
  "map_of (filter (\<lambda>entry. P (fst entry)) xs) k = (if P k then map_of xs k else None)"
  by (induction xs) auto

lemma map_of_deleteByPrefix:
  "map_of (memoryCache (deleteByPrefix this pre)) k =
     (if startsWith k pre then None else map_of (memoryCache this) k)"
  unfolding memoryCache_deleteByPrefix
  using map_of_filter_keys [of "\<lambda>key. \<not> startsWith key pre" "memoryCache this" k] by simp

lemma sharedValue_deleteByPrefix:
  assumes "\<And>client. redisClient this = Some client \<Longrightarrow> redisMatch client (pre @ ''*'') key"
  shows "sharedValue (deleteByPrefix this pre) key = None"
proof (cases "redisAvailable this")
  case False
  then show ?thesis by (simp add: sharedValue_def deleteByPrefix_def Let_def)
next
  case avail: True
  show ?thesis
  proof (cases "redisClient this")
    case None
    then show ?thesis by (simp add: sharedValue_def deleteByPrefix_def Let_def)
  next
    case (Some client)
    note m = assms [OF Some]
    show ?thesis
    proof (cases "redisUp client")
      case False
      then show ?thesis using avail Some
        by (simp add: sharedValue_def deleteByPrefix_def Let_def redisKeys_def)
    next
      case True
      define ks where "ks = filter (redisMatch client (pre @ ''*'')) (map fst (redisData client))"
      have rk: "redisKeys client (pre @ ''*'') = Resolved ks"
        using True by (simp add: redisKeys_def ks_def)
      have mem: "key \<in> fst ` set (redisData client) \<Longrightarrow> key \<in> set ks"
        using m by (auto simp: ks_def)
      show ?thesis
      proof (cases "ks = []")
        case empty: True
        then have "map_of (redisData client) key = None"
          using mem by (auto simp: map_of_eq_None_iff)
        then show ?thesis using avail Some True rk empty
          by (simp add: sharedValue_def deleteByPrefix_def Let_def)
      next
        case False
        have rd: "redisDel client ks = Resolved (client\<lparr> redisData :=
              filter (\<lambda>entry. fst entry \<notin> set ks) (redisData client) \<rparr>)"
          using True by (simp add: redisDel_def)
        have "map_of (filter (\<lambda>entry. fst entry \<notin> set ks) (redisData client)) key = None"
          using map_of_filter_keys [of "\<lambda>k. k \<notin> set ks" "redisData client" key] mem
          by (auto simp: map_of_eq_None_iff)
        then show ?thesis using avail Some True rk rd False
          by (simp add: sharedValue_def deleteByPrefix_def Let_def)
      qed
    qed
  qed
qed

lemma redisClient_set_cache:
  "rel_option (\<lambda>client client'. redisMatch client' = redisMatch client)
     (redisClient this) (redisClient (set_cache this key v options))"
  by (cases "redisClient this")
     (auto simp: set_cache_def Let_def redisSet_def split: Reply.splits if_splits)

lemma get_hit_preserves:
  assumes "map_of (memoryCache this) key = Some entry"
  shows "map_of (memoryCache (snd (get this key))) k = map_of (memoryCache this) k"
    and "sharedValue (snd (get this key)) k = sharedValue this k"
  using assms
  by (auto simp: get_local_hit countHit_def map_of_lruDelete sharedValue_def)

lemma get_miss_preserves:
  assumes "fst (get this key) = None"
  shows "memoryCache (snd (get this key)) = memoryCache this"
    and "sharedValue this k = None \<Longrightarrow> sharedValue (snd (get this key)) k = None"
proof -
  have local: "map_of (memoryCache this) key = None"
    using assms by (simp add: get_result split: option.splits)
  have both: "memoryCache (snd (get this key)) = memoryCache this
      \<and> (sharedValue this k = None \<longrightarrow> sharedValue (snd (get this key)) k = None)"
  proof (cases "redisAvailable this \<and> redisClient this \<noteq> None")
    case False
    then show ?thesis using local
      by (simp add: get_local_miss_unavailable countMiss_def sharedValue_def)
  next
    case True
    then obtain client where c: "redisClient this = Some client" by auto
    have avail: "redisAvailable this" using True by simp
    have sv: "sharedValue this key = None"
      using assms local by (simp add: get_result)
    note g = get_local_miss_shared [OF local avail c]
    show ?thesis
    proof (cases "redisUp client")
      case False
      then have "get this key = (None, countMiss this)"
        by (simp add: g redisGet_def)
      then show ?thesis by (simp add: countMiss_def sharedValue_def)
    next
      case up: True
      show ?thesis
      proof (cases "map_of (redisData client) key")
        case None
        then have "get this key = (None, countMiss this)"
          using up by (simp add: g redisGet_def)
        then show ?thesis by (simp add: countMiss_def sharedValue_def)
      next
        case (Some stored)
        obtain str ex where stored: "stored = (str, ex)" by (cases stored)
        show ?thesis
        proof (cases str)
          case (Json v)
          then have "sharedValue this key = Some v"
            using avail c up Some stored by (simp add: sharedValue_def)
          then show ?thesis using sv by simp
        next
          case EmptyString
          then have "get this key = (None, countMiss this)"
            using up Some stored by (simp add: g redisGet_def)
          then show ?thesis by (simp add: countMiss_def sharedValue_def)
        next
          case Malformed
          define client' where "client' = client\<lparr> redisData :=
              filter (\<lambda>entry. fst entry \<notin> set [key]) (redisData client) \<rparr>"
          have "get this key = (None, countMiss (this\<lparr> redisClient := Some client' \<rparr>))"
            using up Some stored Malformed by (simp add: g redisGet_def redisDel_def client'_def)
          moreover have "map_of (redisData client') k
              = (if k \<noteq> key then map_of (redisData client) k else None)"
            using map_of_filter_keys [of "\<lambda>x. x \<notin> set [key]" "redisData client" k]
            by (simp add: client'_def)
          moreover have "redisUp client' = redisUp client"
            by (simp add: client'_def)
          ultimately show ?thesis using avail c up
            by (simp add: countMiss_def sharedValue_def)
        qed
      qed
    qed
  qed
  show "memoryCache (snd (get this key)) = memoryCache this" using both by simp
  show "sharedValue this k = None \<Longrightarrow> sharedValue (snd (get this key)) k = None"
    using both by simp
qed

lemma redisMatch_set_cache:
  assumes "\<And>client. redisClient this = Some client \<Longrightarrow> P (redisMatch client)"
    and "redisClient (set_cache this key v options) = Some client'"
  shows "P (redisMatch client')"
proof -
  obtain client where c: "redisClient this = Some client" "redisMatch client' = redisMatch client"
    using redisClient_set_cache [of this key v options] assms(2)
    by (cases "redisClient this") auto
  show ?thesis using assms(1) [OF c(1)] c(2) by simp
qed

text \<open>
  C9. \<open>deleteByPrefix(prefix)\<close> leaves in the local tier exactly the entries whose key does
  not start with \<open>prefix\<close>, each unchanged and in the same order. After the three \<open>set\<close>
  calls (with any options, from any state) and \<open>deleteByPrefix("song:1")\<close>,
  \<open>get("other:1")\<close> returns \<open>c\<close> and \<open>get("song:1")\<close> and \<open>get("song:1:kugou")\<close> return
  nothing, asked one after the other or each right after the deletion. The shared tier enters
  through the one property of the server that the scenario needs: its pattern \<open>song:1*\<close>
  matches the keys \<open>song:1\<close> and \<open>song:1:kugou\<close>.
\<close>

theorem deleteByPrefix_frame:
  "memoryCache (deleteByPrefix this pre) =
     filter (\<lambda>entry. \<not> startsWith (fst entry) pre) (memoryCache this)
   \<and> map_of (memoryCache (deleteByPrefix this pre)) k =
       (if prefix pre k then None else map_of (memoryCache this) k)
   \<and> ((\<forall>client. redisClient this = Some client \<longrightarrow>
          redisMatch client ''song:1*'' ''song:1''
          \<and> redisMatch client ''song:1*'' ''song:1:kugou'') \<longrightarrow>
       (let this1 = set_cache this ''song:1'' a optionsA;
            this2 = set_cache this1 ''song:1:kugou'' b optionsB;
            this3 = set_cache this2 ''other:1'' c optionsC;
            this4 = deleteByPrefix this3 ''song:1'';
            this5 = snd (get this4 ''other:1'');
            this6 = snd (get this5 ''song:1'')
        in fst (get this4 ''other:1'') = Some c
           \<and> fst (get this4 ''song:1'') = None
           \<and> fst (get this4 ''song:1:kugou'') = None
           \<and> fst (get this5 ''song:1'') = None
           \<and> fst (get this6 ''song:1:kugou'') = None))"
proof -
  have frame: "map_of (memoryCache (deleteByPrefix this pre)) k =
       (if prefix pre k then None else map_of (memoryCache this) k)"
    by (simp add: map_of_deleteByPrefix startsWith_def)
  have scen: "(let this1 = set_cache this ''song:1'' a optionsA;
            this2 = set_cache this1 ''song:1:kugou'' b optionsB;
            this3 = set_cache this2 ''other:1'' c optionsC;
            this4 = deleteByPrefix this3 ''song:1'';
            this5 = snd (get this4 ''other:1'');
            this6 = snd (get this5 ''song:1'')
        in fst (get this4 ''other:1'') = Some c
           \<and> fst (get this4 ''song:1'') = None
           \<and> fst (get this4 ''song:1:kugou'') = None
           \<and> fst (get this5 ''song:1'') = None
           \<and> fst (get this6 ''song:1:kugou'') = None)"
    if m: "\<forall>client. redisClient this = Some client \<longrightarrow>
          redisMatch client ''song:1*'' ''song:1''
          \<and> redisMatch client ''song:1*'' ''song:1:kugou''"
  proof -
    define this1 where "this1 = set_cache this ''song:1'' a optionsA"
    define this2 where "this2 = set_cache this1 ''song:1:kugou'' b optionsB"
    define this3 where "this3 = set_cache this2 ''other:1'' c optionsC"
    define this4 where "this4 = deleteByPrefix this3 ''song:1''"
    define this5 where "this5 = snd (get this4 ''other:1'')"
    define this6 where "this6 = snd (get this5 ''song:1'')"
    let ?P = "\<lambda>f. f ''song:1*'' ''song:1'' \<and> f ''song:1*'' ''song:1:kugou''"
    have m0: "\<And>client. redisClient this = Some client \<Longrightarrow> ?P (redisMatch client)"
      using m by blast
    have m1: "\<And>client. redisClient this1 = Some client \<Longrightarrow> ?P (redisMatch client)"
      unfolding this1_def by (rule redisMatch_set_cache [of this ?P]) (use m0 in auto)
    have m2: "\<And>client. redisClient this2 = Some client \<Longrightarrow> ?P (redisMatch client)"
      unfolding this2_def by (rule redisMatch_set_cache [of this1 ?P]) (use m1 in auto)
    have m3: "\<And>client. redisClient this3 = Some client \<Longrightarrow> ?P (redisMatch client)"
      unfolding this3_def by (rule redisMatch_set_cache [of this2 ?P]) (use m2 in auto)
    have sh: "sharedValue this4 ''song:1'' = None" "sharedValue this4 ''song:1:kugou'' = None"
      unfolding this4_def
      by (rule sharedValue_deleteByPrefix; use m3 in simp)+
    obtain t where other3: "map_of (memoryCache this3) ''other:1'' = Some (c, t)"
      using map_of_set_cache_same [of this2 "''other:1''" c optionsC] by (auto simp: this3_def)
    have other4: "map_of (memoryCache this4) ''other:1'' = Some (c, t)"
      using other3 by (simp add: this4_def map_of_deleteByPrefix startsWith_def)
    have loc4: "map_of (memoryCache this4) ''song:1'' = None"
      "map_of (memoryCache this4) ''song:1:kugou'' = None"
      by (simp_all add: this4_def map_of_deleteByPrefix startsWith_def)
    have r1: "fst (get this4 ''other:1'') = Some c"
      using other4 by (simp add: get_result)
    have r2: "fst (get this4 ''song:1'') = None" "fst (get this4 ''song:1:kugou'') = None"
      using loc4 sh by (simp_all add: get_result)
    have loc5: "map_of (memoryCache this5) ''song:1'' = None"
      "map_of (memoryCache this5) ''song:1:kugou'' = None"
      using loc4 get_hit_preserves(1) [OF other4] by (simp_all add: this5_def)
    have sh5: "sharedValue this5 ''song:1'' = None" "sharedValue this5 ''song:1:kugou'' = None"
      using sh get_hit_preserves(2) [OF other4] by (simp_all add: this5_def)
    have r3: "fst (get this5 ''song:1'') = None"
      using loc5 sh5 by (simp add: get_result)
    have loc6: "map_of (memoryCache this6) ''song:1:kugou'' = None"
      using loc5 get_miss_preserves(1) [OF r3] by (simp add: this6_def)
    have sh6: "sharedValue this6 ''song:1:kugou'' = None"
      unfolding this6_def by (rule get_miss_preserves(2) [OF r3 sh5(2)])
    have r4: "fst (get this6 ''song:1:kugou'') = None"
      using loc6 sh6 by (simp add: get_result)
    show ?thesis
      using r1 r2 r3 r4
      unfolding Let_def this1_def this2_def this3_def this4_def this5_def this6_def by simp
  qed
  show ?thesis using memoryCache_deleteByPrefix [of this pre] frame scen by blast
qed


theorem deleteByPrefix_frame_witness:
  "(let this = \<lparr> memoryCache = [(''song:10'', 5, 1000)],
                 redisClient = Some \<lparr> redisData = [(''song:1:kugou'', Json 9, 60)], redisUp = True,
                   redisMatch = (\<lambda>pattern key. prefix (butlast pattern) key) \<rparr>,
                 redisAvailable = True,
                 stats = \<lparr> hits = 0, misses = 0, memoryCacheSize = 0, redisCacheSize = 0 \<rparr> \<rparr>;
        this4 = deleteByPrefix (set_cache (set_cache (set_cache this
                  ''song:1'' (11::nat) None) ''song:1:kugou'' 22 None) ''other:1'' 33 None) ''song:1''
    in fst (get this4 ''other:1'') = Some 33
       \<and> fst (get this4 ''song:1'') = None
       \<and> fst (get this4 ''song:1:kugou'') = None
       \<and> map_of (memoryCache (deleteByPrefix this ''song:1'')) ''song:10'' = None)"
  using deleteByPrefix_frame [of
      "\<lparr> memoryCache = [(''song:10'', 5, 1000)],
         redisClient = Some \<lparr> redisData = [(''song:1:kugou'', Json 9, 60)], redisUp = True,
           redisMatch = (\<lambda>pattern key. prefix (butlast pattern) key) \<rparr>,
         redisAvailable = True,
         stats = \<lparr> hits = 0, misses = 0, memoryCacheSize = 0, redisCacheSize = 0 \<rparr> \<rparr>"
      "''song:1''" "''song:10''" "11::nat" None 22 None 33 None]
  by (simp add: Let_def startsWith_def)

text \<open>
  C2 (the code at the failing input). After \<open>cacheSongSourceInfo("1", "kugou", d)\<close>, from any
  state and with any options, \<open>clearSourceCache("kugou")\<close> deletes by the prefix
  \<open>song::kugou\<close>, which the key \<open>song:1:kugou\<close> does not start with, and
  \<open>getSongSourceInfo("1", "kugou")\<close> still returns \<open>d\<close>.
\<close>

theorem clearSourceCache_keeps_source_entry:
  "fst (getSongSourceInfo
         (clearSourceCache (cacheSongSourceInfo this ''1'' ''kugou'' d options) ''kugou'')
         ''1'' ''kugou'') = Some d
   \<and> memoryCache (clearSourceCache
         (cacheSongSourceInfo newCacheService ''1'' ''kugou'' d None) ''kugou'')
       = [(''song:1:kugou'', d, 86400000)]"
proof -
  define this1 where "this1 = cacheSongSourceInfo this ''1'' ''kugou'' d options"
  obtain t where "map_of (memoryCache this1) ''song:1:kugou'' = Some (d, t)"
    using map_of_set_cache_same [of this "''song:1:kugou''" d]
    by (auto simp: this1_def cacheSongSourceInfo_def getSongKey_def SONG_PREFIX_def Let_def)
  then have "map_of (memoryCache (clearSourceCache this1 ''kugou'')) ''song:1:kugou'' = Some (d, t)"
    by (simp add: clearSourceCache_def map_of_deleteByPrefix startsWith_def SONG_PREFIX_def)
  then have a: "fst (getSongSourceInfo (clearSourceCache this1 ''kugou'') ''1'' ''kugou'') = Some d"
    by (simp add: getSongSourceInfo_def getSongKey_def SONG_PREFIX_def get_result)
  have b: "memoryCache (clearSourceCache
         (cacheSongSourceInfo newCacheService ''1'' ''kugou'' d None) ''kugou'')
       = [(''song:1:kugou'', d, 86400000)]"
    by (simp add: clearSourceCache_def memoryCache_deleteByPrefix cacheSongSourceInfo_def
        memoryCache_set_cache getSongKey_def SONG_PREFIX_def spreadSongOptions_def
        songDefaultOptions_def ttlFalsy_def lruSet_def lruMax_def lruDelete_def
        newCacheService_def startsWith_def)
  show ?thesis using a b by (simp add: this1_def)
qed


end
